theory Spec2Isabelle
  imports Main
begin

section \<open>Python values, exceptions and the remote store\<close>

text \<open>
  The module \<^verbatim>\<open>redisds.py\<close> wraps three structures of a remote key-value store
  (list, set, hash) as Python collections. Every method is a sequence of calls on the
  connection object \<^verbatim>\<open>self.c\<close>; the model threads the connection through each
  call and returns it with the outcome, also when the outcome is an exception, since a
  method that raises half-way leaves its earlier writes in the store.
\<close>

datatype error =
    TypeError | IndexError | KeyError | ValueError | NameError | AttributeError
  | NotImplementedError | ResponseError | DataError
  | UnicodeDecodeError | UnicodeEncodeError

text \<open>
  A text (\<^verbatim>\<open>str\<close>) is the list of its code points; a byte string (\<^verbatim>\<open>bytes\<close>) is a
  \<open>string\<close>, whose characters are bytes. The store holds byte strings only.
\<close>

type_synonym str = "nat list"

text \<open>
  The Python values that the methods receive and return. A view object is given by the
  name that its key has in the store (all views of the model share the one connection).
\<close>

datatype pyval =
    PyNone
  | PyInt int
  | PyStr str
  | PyBytes string
  | PyList "pyval list"
  | PySlice "int option" "int option" "int option"
  | PyRedisList string
  | PyRedisSet string
  | PyRedisDict string

text \<open>
  What a key of the store holds. A set is kept as the list of its distinct members in
  the order in which the store enumerates them; a hash as its field-value pairs.
\<close>

datatype rvalue =
    RList "string list"
  | RSet "string list"
  | RHash "(string \<times> string) list"

text \<open>
  The connection: the contents of the store, and how the client library transmits a
  value that is neither bytes, text nor an integer. Versions of the client differ there
  (one rejects such a value with a data error, another sends its textual rendering), so
  this is a parameter of the model.
\<close>

record connection =
  db :: "string \<rightharpoonup> rvalue"
  encode_other :: "pyval \<Rightarrow> error + string"

type_synonym 'a outcome = "(error + 'a) \<times> connection"

definition and_then :: "'a outcome \<Rightarrow> ('a \<Rightarrow> connection \<Rightarrow> 'b outcome) \<Rightarrow> 'b outcome" where
  "and_then r f = (case r of (Inl e, c) \<Rightarrow> (Inl e, c) | (Inr a, c) \<Rightarrow> f a c)"

subsection \<open>UTF-8\<close>

text \<open>
  \<^verbatim>\<open>DECODER\<close> is \<^verbatim>\<open>bytes.decode("utf-8")\<close>, which accepts the well-formed byte
  sequences only: no stray or missing continuation byte, no overlong form, no surrogate,
  nothing above U+10FFFF. The functions below work on the values of the bytes.
\<close>

definition continuation :: "nat \<Rightarrow> bool" where
  "continuation b = (128 \<le> b \<and> b < 192)"

text \<open>The second byte of a sequence is restricted further after four lead bytes.\<close>

definition second_ok :: "nat \<Rightarrow> nat \<Rightarrow> bool" where
  "second_ok b0 b1 =
     ((if b0 = 224 then 160 else if b0 = 240 then 144 else 128) \<le> b1 \<and>
      b1 < (if b0 = 237 then 160 else if b0 = 244 then 144 else 192))"

fun decode2 :: "nat \<Rightarrow> nat list \<Rightarrow> (nat \<times> nat list) option" where
  "decode2 b0 (b1 # r) =
     (if continuation b1 then Some ((b0 - 192) * 64 + (b1 - 128), r) else None)"
| "decode2 b0 _ = None"

fun decode3 :: "nat \<Rightarrow> nat list \<Rightarrow> (nat \<times> nat list) option" where
  "decode3 b0 (b1 # b2 # r) =
     (if second_ok b0 b1 \<and> continuation b2
      then Some ((b0 - 224) * 4096 + (b1 - 128) * 64 + (b2 - 128), r) else None)"
| "decode3 b0 _ = None"

fun decode4 :: "nat \<Rightarrow> nat list \<Rightarrow> (nat \<times> nat list) option" where
  "decode4 b0 (b1 # b2 # b3 # r) =
     (if second_ok b0 b1 \<and> continuation b2 \<and> continuation b3
      then Some ((b0 - 240) * 262144 + (b1 - 128) * 4096 + (b2 - 128) * 64 + (b3 - 128), r)
      else None)"
| "decode4 b0 _ = None"

text \<open>The first code point of a byte sequence, and the bytes after it.\<close>

fun utf8_next :: "nat list \<Rightarrow> (nat \<times> nat list) option" where
  "utf8_next [] = None"
| "utf8_next (b0 # r) =
     (if b0 < 128 then Some (b0, r)
      else if 194 \<le> b0 \<and> b0 < 224 then decode2 b0 r
      else if 224 \<le> b0 \<and> b0 < 240 then decode3 b0 r
      else if 240 \<le> b0 \<and> b0 < 245 then decode4 b0 r
      else None)"

function utf8_decode :: "nat list \<Rightarrow> str option" where
  "utf8_decode bs =
     (if bs = [] then Some []
      else (case utf8_next bs of
              None \<Rightarrow> None
            | Some (cp, r) \<Rightarrow> map_option (Cons cp) (utf8_decode r)))"
  by pat_completeness auto
termination
proof (relation "measure length")
  show "wf (measure (length :: nat list \<Rightarrow> nat))"
    by simp
next
  fix bs :: "nat list" and x :: "nat \<times> nat list" and cp :: nat and r :: "nat list"
  assume "bs \<noteq> []" and nx: "utf8_next bs = Some x" and x: "(cp, r) = x"
  have d2: "length r' < length l" if "decode2 b l = Some (p, r')" for b l p r'
    using that by (cases "(b, l)" rule: decode2.cases) (simp_all split: if_splits)
  have d3: "length r' < length l" if "decode3 b l = Some (p, r')" for b l p r'
    using that by (cases "(b, l)" rule: decode3.cases) (simp_all split: if_splits)
  have d4: "length r' < length l" if "decode4 b l = Some (p, r')" for b l p r'
    using that by (cases "(b, l)" rule: decode4.cases) (simp_all split: if_splits)
  from \<open>bs \<noteq> []\<close> obtain b0 r0 where bs: "bs = b0 # r0"
    by (cases bs) auto
  from nx x have "utf8_next (b0 # r0) = Some (cp, r)"
    by (simp add: bs)
  then have "r = r0 \<or> decode2 b0 r0 = Some (cp, r) \<or> decode3 b0 r0 = Some (cp, r)
      \<or> decode4 b0 r0 = Some (cp, r)"
    unfolding utf8_next.simps by (metis option.inject prod.inject option.distinct(1))
  then have "length r < length bs"
    unfolding bs using d2 [of b0 r0 cp r] d3 [of b0 r0 cp r] d4 [of b0 r0 cp r] by auto
  then show "(r, bs) \<in> measure length"
    by simp
qed

declare utf8_decode.simps [simp del]

text \<open>
  \<^verbatim>\<open>str.encode("utf-8")\<close>, as the client applies it to a text that it transmits;
  a surrogate has no encoding.
\<close>

definition utf8_encode_char :: "nat \<Rightarrow> nat list option" where
  "utf8_encode_char cp =
     (if cp < 128 then Some [cp]
      else if cp < 2048 then Some [192 + cp div 64, 128 + cp mod 64]
      else if cp < 65536 then
        (if 55296 \<le> cp \<and> cp < 57344 then None
         else Some [224 + cp div 4096, 128 + cp div 64 mod 64, 128 + cp mod 64])
      else if cp < 1114112 then
        Some [240 + cp div 262144, 128 + cp div 4096 mod 64, 128 + cp div 64 mod 64,
              128 + cp mod 64]
      else None)"

fun utf8_encode :: "str \<Rightarrow> nat list option" where
  "utf8_encode [] = Some []"
| "utf8_encode (cp # t) =
     (case utf8_encode_char cp of
        None \<Rightarrow> None
      | Some bs \<Rightarrow> map_option (append bs) (utf8_encode t))"

definition DECODER :: "string \<Rightarrow> error + str" where
  "DECODER byte =
     (case utf8_decode (map of_char byte) of
        None \<Rightarrow> Inl UnicodeDecodeError
      | Some t \<Rightarrow> Inr t)"

definition encode_text :: "str \<Rightarrow> error + string" where
  "encode_text t =
     (case utf8_encode t of
        None \<Rightarrow> Inl UnicodeEncodeError
      | Some bs \<Rightarrow> Inr (map char_of bs))"

text \<open>\<^verbatim>\<open>[DECODER(i) for i in bs]\<close>: the first byte string that does not decode raises.\<close>

fun decode_each :: "string list \<Rightarrow> error + str list" where
  "decode_each [] = Inr []"
| "decode_each (b # bs) =
     (case DECODER b of
        Inl e \<Rightarrow> Inl e
      | Inr t \<Rightarrow> (case decode_each bs of Inl e \<Rightarrow> Inl e | Inr ts \<Rightarrow> Inr (t # ts)))"

subsection \<open>Encoding of transmitted values\<close>

function digits :: "nat \<Rightarrow> string" where
  "digits n = (if n < 10 then [char_of (48 + n)]
               else digits (n div 10) @ [char_of (48 + n mod 10)])"
  by pat_completeness auto
termination
  by (relation "measure id") auto

declare digits.simps [simp del]

definition str_of_int :: "int \<Rightarrow> string" where
  "str_of_int i = (if i < 0 then CHR ''-'' # digits (nat (- i)) else digits (nat i))"

definition encode :: "connection \<Rightarrow> pyval \<Rightarrow> error + string" where
  "encode c v =
     (case v of
        PyBytes b \<Rightarrow> Inr b
      | PyStr s \<Rightarrow> encode_text s
      | PyInt i \<Rightarrow> Inr (str_of_int i)
      | _ \<Rightarrow> encode_other c v)"

fun encode_all :: "connection \<Rightarrow> pyval list \<Rightarrow> error + string list" where
  "encode_all c [] = Inr []"
| "encode_all c (v # vs) =
     (case encode c v of
        Inl e \<Rightarrow> Inl e
      | Inr b \<Rightarrow> (case encode_all c vs of Inl e \<Rightarrow> Inl e | Inr bs \<Rightarrow> Inr (b # bs)))"

subsection \<open>List commands of the store\<close>

text \<open>
  A command on a key that holds another kind of structure is answered with an error
  (\<open>ResponseError\<close>); a key that is absent reads as the empty list, and a list that
  becomes empty is removed from the store. An integer argument has to fit the store's
  signed 64-bit integers, or the command is answered with an error.
\<close>

definition int64 :: "int \<Rightarrow> bool" where
  "int64 i = (- (2 ^ 63) \<le> i \<and> i < 2 ^ 63)"

definition list_at :: "connection \<Rightarrow> string \<Rightarrow> error + string list" where
  "list_at c k =
     (case db c k of
        None \<Rightarrow> Inr []
      | Some r \<Rightarrow> (case r of RList xs \<Rightarrow> Inr xs | _ \<Rightarrow> Inl ResponseError))"

definition store_list :: "connection \<Rightarrow> string \<Rightarrow> string list \<Rightarrow> connection" where
  "store_list c k xs = c\<lparr>db := (db c)(k := (if xs = [] then None else Some (RList xs)))\<rparr>"

definition rpush :: "connection \<Rightarrow> string \<Rightarrow> pyval list \<Rightarrow> nat outcome" where
  "rpush c k vs =
     (case encode_all c vs of
        Inl e \<Rightarrow> (Inl e, c)
      | Inr bs \<Rightarrow>
          if bs = [] then (Inl ResponseError, c)
          else (case list_at c k of
                  Inl e \<Rightarrow> (Inl e, c)
                | Inr xs \<Rightarrow> (Inr (length (xs @ bs)), store_list c k (xs @ bs))))"

text \<open>
  \<open>lindex\<close> looks the key up before it reads the index: on an absent key the reply is
  the missing value whatever the index is.
\<close>

definition lindex :: "connection \<Rightarrow> string \<Rightarrow> int \<Rightarrow> string option outcome" where
  "lindex c k i =
     (case db c k of
        None \<Rightarrow> (Inr None, c)
      | Some r \<Rightarrow>
          (case r of
             RList xs \<Rightarrow>
               if \<not> int64 i then (Inl ResponseError, c)
               else (let n = int (length xs); j = (if i < 0 then n + i else i)
                     in (Inr (if 0 \<le> j \<and> j < n then Some (xs ! nat j) else None), c))
           | _ \<Rightarrow> (Inl ResponseError, c)))"

text \<open>
  The range of a list of length \<open>llen\<close> that the bounds \<open>start\<close> and \<open>end\<close> select, both
  inclusive and counted from the end when negative: its first position and its length,
  or \<open>None\<close> for the empty range.
\<close>

definition range_of :: "nat \<Rightarrow> int \<Rightarrow> int \<Rightarrow> (nat \<times> nat) option" where
  "range_of llen start end =
     (let n = int llen;
          s0 = (if start < 0 then n + start else start);
          e0 = (if end < 0 then n + end else end);
          s = (if s0 < 0 then 0 else s0)
      in if s > e0 \<or> s \<ge> n then None
         else Some (nat s, nat ((if e0 \<ge> n then n - 1 else e0) - s + 1)))"

definition in_range :: "string list \<Rightarrow> int \<Rightarrow> int \<Rightarrow> string list" where
  "in_range xs start end =
     (case range_of (length xs) start end of
        None \<Rightarrow> []
      | Some (s, len) \<Rightarrow> take len (drop s xs))"

text \<open>
  A bound of a range: one that is not an integer is refused, by the client or by the
  store, and so is an integer outside the 64 bits. \<open>lrange\<close> and \<open>ltrim\<close> read their
  bounds before they look the key up.
\<close>

definition int_arg :: "connection \<Rightarrow> int option \<Rightarrow> error + int" where
  "int_arg c a =
     (case a of
        Some i \<Rightarrow> if int64 i then Inr i else Inl ResponseError
      | None \<Rightarrow> (case encode c PyNone of Inl e \<Rightarrow> Inl e | Inr _ \<Rightarrow> Inl ResponseError))"

definition lrange :: "connection \<Rightarrow> string \<Rightarrow> int option \<Rightarrow> int option \<Rightarrow> string list outcome" where
  "lrange c k start end =
     (case int_arg c start of
        Inl e \<Rightarrow> (Inl e, c)
      | Inr s \<Rightarrow>
          (case int_arg c end of
             Inl e \<Rightarrow> (Inl e, c)
           | Inr e \<Rightarrow>
               (case list_at c k of
                  Inl err \<Rightarrow> (Inl err, c)
                | Inr xs \<Rightarrow> (Inr (in_range xs s e), c))))"

definition ltrim :: "connection \<Rightarrow> string \<Rightarrow> int \<Rightarrow> int \<Rightarrow> unit outcome" where
  "ltrim c k start end =
     (if \<not> (int64 start \<and> int64 end) then (Inl ResponseError, c)
      else (case list_at c k of
              Inl e \<Rightarrow> (Inl e, c)
            | Inr xs \<Rightarrow> (Inr (), store_list c k (in_range xs start end))))"

definition delete :: "connection \<Rightarrow> string \<Rightarrow> nat outcome" where
  "delete c k = (Inr (if db c k = None then 0 else 1), c\<lparr>db := (db c)(k := None)\<rparr>)"

subsection \<open>Set and hash commands of the store\<close>

definition set_at :: "connection \<Rightarrow> string \<Rightarrow> error + string list" where
  "set_at c k =
     (case db c k of
        None \<Rightarrow> Inr []
      | Some r \<Rightarrow> (case r of RSet xs \<Rightarrow> Inr xs | _ \<Rightarrow> Inl ResponseError))"

definition store_set :: "connection \<Rightarrow> string \<Rightarrow> string list \<Rightarrow> connection" where
  "store_set c k xs = c\<lparr>db := (db c)(k := (if xs = [] then None else Some (RSet xs)))\<rparr>"

definition smembers :: "connection \<Rightarrow> string \<Rightarrow> string list outcome" where
  "smembers c k = (case set_at c k of Inl e \<Rightarrow> (Inl e, c) | Inr xs \<Rightarrow> (Inr xs, c))"

definition scard :: "connection \<Rightarrow> string \<Rightarrow> nat outcome" where
  "scard c k = (case set_at c k of Inl e \<Rightarrow> (Inl e, c) | Inr xs \<Rightarrow> (Inr (length xs), c))"

text \<open>\<open>srem\<close> answers with the number of members it removed.\<close>

definition srem :: "connection \<Rightarrow> string \<Rightarrow> pyval \<Rightarrow> nat outcome" where
  "srem c k element =
     (case encode c element of
        Inl e \<Rightarrow> (Inl e, c)
      | Inr b \<Rightarrow>
          (case set_at c k of
             Inl e \<Rightarrow> (Inl e, c)
           | Inr xs \<Rightarrow>
               if b \<in> set xs then (Inr 1, store_set c k (removeAll b xs))
               else (Inr 0, c)))"

fun sets_at :: "connection \<Rightarrow> string list \<Rightarrow> error + string list list" where
  "sets_at c [] = Inr []"
| "sets_at c (k # ks) =
     (case set_at c k of
        Inl e \<Rightarrow> Inl e
      | Inr xs \<Rightarrow> (case sets_at c ks of Inl e \<Rightarrow> Inl e | Inr xss \<Rightarrow> Inr (xs # xss)))"

text \<open>
  The three storing commands compute a set from the sets at \<open>keys\<close> and put it at
  \<open>dest\<close>, replacing whatever was there; they need at least one key.
\<close>

definition store_result ::
  "connection \<Rightarrow> pyval \<Rightarrow> string list \<Rightarrow> (string list list \<Rightarrow> string list) \<Rightarrow> nat outcome" where
  "store_result c dest keys combine =
     (case encode c dest of
        Inl e \<Rightarrow> (Inl e, c)
      | Inr d \<Rightarrow>
          if keys = [] then (Inl ResponseError, c)
          else (case sets_at c keys of
                  Inl e \<Rightarrow> (Inl e, c)
                | Inr xss \<Rightarrow> (Inr (length (combine xss)), store_set c d (combine xss))))"

definition union_of :: "string list list \<Rightarrow> string list" where
  "union_of xss = remdups (concat xss)"

definition inter_of :: "string list list \<Rightarrow> string list" where
  "inter_of xss = (case xss of [] \<Rightarrow> [] | xs # rest \<Rightarrow> filter (\<lambda>x. \<forall>ys \<in> set rest. x \<in> set ys) xs)"

definition diff_of :: "string list list \<Rightarrow> string list" where
  "diff_of xss = (case xss of [] \<Rightarrow> [] | xs # rest \<Rightarrow> filter (\<lambda>x. \<forall>ys \<in> set rest. x \<notin> set ys) xs)"

definition sunionstore :: "connection \<Rightarrow> pyval \<Rightarrow> string list \<Rightarrow> nat outcome" where
  "sunionstore c dest keys = store_result c dest keys union_of"

definition sinterstore :: "connection \<Rightarrow> pyval \<Rightarrow> string list \<Rightarrow> nat outcome" where
  "sinterstore c dest keys = store_result c dest keys inter_of"

definition sdiffstore :: "connection \<Rightarrow> pyval \<Rightarrow> string list \<Rightarrow> nat outcome" where
  "sdiffstore c dest keys = store_result c dest keys diff_of"

definition hash_at :: "connection \<Rightarrow> string \<Rightarrow> error + (string \<times> string) list" where
  "hash_at c k =
     (case db c k of
        None \<Rightarrow> Inr []
      | Some r \<Rightarrow> (case r of RHash kvs \<Rightarrow> Inr kvs | _ \<Rightarrow> Inl ResponseError))"

definition hget :: "connection \<Rightarrow> string \<Rightarrow> pyval \<Rightarrow> string option outcome" where
  "hget c k field =
     (case encode c field of
        Inl e \<Rightarrow> (Inl e, c)
      | Inr f \<Rightarrow> (case hash_at c k of Inl e \<Rightarrow> (Inl e, c) | Inr kvs \<Rightarrow> (Inr (map_of kvs f), c)))"

definition hgetall :: "connection \<Rightarrow> string \<Rightarrow> (string \<times> string) list outcome" where
  "hgetall c k = (case hash_at c k of Inl e \<Rightarrow> (Inl e, c) | Inr kvs \<Rightarrow> (Inr kvs, c))"


section \<open>The module\<close>

subsection \<open>Names, types and attributes\<close>

text \<open>
  The classes that the module tests values against with \<^verbatim>\<open>isinstance\<close>.
\<close>

datatype pytype = T_str | T_int | T_list | T_slice | T_Iterable | T_RedisSet

fun isinstance :: "pyval \<Rightarrow> pytype \<Rightarrow> bool" where
  "isinstance v T_str = (case v of PyStr _ \<Rightarrow> True | _ \<Rightarrow> False)"
| "isinstance v T_int = (case v of PyInt _ \<Rightarrow> True | _ \<Rightarrow> False)"
| "isinstance v T_list = (case v of PyList _ \<Rightarrow> True | _ \<Rightarrow> False)"
| "isinstance v T_slice = (case v of PySlice _ _ _ \<Rightarrow> True | _ \<Rightarrow> False)"
| "isinstance v T_Iterable =
     (case v of PyNone \<Rightarrow> False | PyInt _ \<Rightarrow> False | PySlice _ _ _ \<Rightarrow> False | _ \<Rightarrow> True)"
| "isinstance v T_RedisSet = (case v of PyRedisSet _ \<Rightarrow> True | _ \<Rightarrow> False)"

text \<open>
  A view object: \<^verbatim>\<open>RedisDSBase.__init__\<close> refuses a key that is not a \<^verbatim>\<open>str\<close>
  and sets the two attributes \<^verbatim>\<open>key\<close> and \<^verbatim>\<open>c\<close>, the latter being the connection
  that the model passes along. The model keeps the key under the name that the client
  transmits for it; a text without an encoding names no key, and the model refuses it
  here, where the source would fail at the first command.
\<close>

record view =
  key :: string

definition RedisDSBase_init :: "pyval \<Rightarrow> error + view" where
  "RedisDSBase_init k =
     (if \<not> isinstance k T_str then Inl TypeError
      else (case k of
              PyStr s \<Rightarrow> (case encode_text s of Inl e \<Rightarrow> Inl e | Inr b \<Rightarrow> Inr \<lparr>key = b\<rparr>)
            | _ \<Rightarrow> Inl TypeError))"

text \<open>
  Reading a data attribute of a view by name. The classes define methods only, none of
  them under a name that this function is asked for, so a name other than the two set
  by the constructor is an \<open>AttributeError\<close>.
\<close>

datatype attribute = Key string | Connection

definition instance_attribute :: "view \<Rightarrow> string \<Rightarrow> error + attribute" where
  "instance_attribute self name =
     (if name = ''key'' then Inr (Key (key self))
      else if name = ''c'' then Inr Connection
      else Inl AttributeError)"

text \<open>
  Reading a variable inside a function body: the name is looked up among the function's
  local variables and then among the names bound at module level. (Builtins such as
  \<^verbatim>\<open>str\<close> or \<^verbatim>\<open>isinstance\<close> are not looked up through this function.)
\<close>

definition module_names :: "string list" where
  "module_names =
     [''Iterable'', ''abc'', ''string'', ''random'', ''ResponseError'', ''uuid'',
      ''DECODER'', ''CHARACTERS'', ''IS_ITERABLE'', ''RedisDSBase'', ''RedisList'',
      ''RedisObjectList'', ''RedisSet'', ''RedisDict'', ''raise_if_of_type'']"

definition read_name :: "string list \<Rightarrow> string \<Rightarrow> error + unit" where
  "read_name locals name =
     (if name \<in> set locals \<or> name \<in> set module_names then Inr () else Inl NameError)"

subsection \<open>RedisList\<close>

definition RedisList_append :: "connection \<Rightarrow> view \<Rightarrow> pyval list \<Rightarrow> pyval outcome" where
  "RedisList_append c self values =
     and_then (rpush c (key self) values) (\<lambda>_ c'. (Inr PyNone, c'))"

definition RedisList_clear :: "connection \<Rightarrow> view \<Rightarrow> pyval outcome" where
  "RedisList_clear c self = and_then (delete c (key self)) (\<lambda>_ c'. (Inr PyNone, c'))"

text \<open>
  \<^verbatim>\<open>__repr__\<close> builds the list \<^verbatim>\<open>l\<close> of the decoded elements and returns its
  rendering \<^verbatim>\<open>str(l)\<close>; the model returns \<^verbatim>\<open>l\<close> itself.
\<close>

definition RedisList_repr :: "connection \<Rightarrow> view \<Rightarrow> str list outcome" where
  "RedisList_repr c self =
     and_then (lrange c (key self) (Some 0) (Some (- 1)))
       (\<lambda>bs c'. case decode_each bs of Inl e \<Rightarrow> (Inl e, c') | Inr l \<Rightarrow> (Inr l, c'))"

definition RedisList_sliced ::
  "connection \<Rightarrow> view \<Rightarrow> int option \<Rightarrow> int option \<Rightarrow> int option \<Rightarrow> pyval outcome" where
  "RedisList_sliced c self start end step =
     (if step \<noteq> None then (Inl NotImplementedError, c)
      else and_then (lrange c (key self) start end)
             (\<lambda>bs c'. case decode_each bs of
                         Inl e \<Rightarrow> (Inl e, c')
                       | Inr l \<Rightarrow> (Inr (PyList (map PyStr l)), c')))"

text \<open>
  \<^verbatim>\<open>__getitem__\<close>: the test \<^verbatim>\<open>not val\<close> holds for the missing reply and for the
  empty byte string. An index that is neither an integer nor a slice falls through both
  tests, and the method returns \<^verbatim>\<open>None\<close>.
\<close>

definition RedisList_getitem :: "connection \<Rightarrow> view \<Rightarrow> pyval \<Rightarrow> pyval outcome" where
  "RedisList_getitem c self index =
     (case index of
        PyInt i \<Rightarrow>
          and_then (lindex c (key self) i)
            (\<lambda>val c'. case val of
                         None \<Rightarrow> (Inl IndexError, c')
                       | Some b \<Rightarrow>
                           if b = [] then (Inl IndexError, c')
                           else (case DECODER b of
                                   Inl e \<Rightarrow> (Inl e, c')
                                 | Inr s \<Rightarrow> (Inr (PyStr s), c')))
      | PySlice start end step \<Rightarrow> RedisList_sliced c self start end step
      | _ \<Rightarrow> (Inr PyNone, c))"

text \<open>
  The class inherits iteration from the sequence base class of the standard library,
  which asks for the items at 0, 1, 2, ... until \<^verbatim>\<open>__getitem__\<close> raises
  \<open>IndexError\<close>; any other exception propagates.
\<close>

definition list_length :: "connection \<Rightarrow> string \<Rightarrow> nat" where
  "list_length c k = (case list_at c k of Inl _ \<Rightarrow> 0 | Inr xs \<Rightarrow> length xs)"

function iter_from :: "connection \<Rightarrow> view \<Rightarrow> nat \<Rightarrow> pyval list outcome" where
  "iter_from c self i =
     (case RedisList_getitem c self (PyInt (int i)) of
        (Inl e, c') \<Rightarrow> if e = IndexError then (Inr [], c') else (Inl e, c')
      | (Inr v, c') \<Rightarrow>
          (case iter_from c' self (Suc i) of
             (Inl e, c'') \<Rightarrow> (Inl e, c'')
           | (Inr vs, c'') \<Rightarrow> (Inr (v # vs), c'')))"
  by pat_completeness auto
termination
proof (relation "measure (\<lambda>(c, self, i). list_length c (key self) - i)")
  show "wf (measure (\<lambda>(c, self, i). list_length c (key self) - i))"
    by simp
next
  fix c :: connection and self :: view and i :: nat and x c' v
  assume "(x, c') = RedisList_getitem c self (PyInt (int i))" and "x = Inr v"
  then have "RedisList_getitem c self (PyInt (int i)) = (Inr v, c')"
    by simp
  then have "c' = c \<and> i < list_length c (key self)"
    by (auto simp: RedisList_getitem_def and_then_def lindex_def list_length_def list_at_def
             Let_def split: sum.splits option.splits if_splits rvalue.splits)
  then show "((c', self, Suc i), (c, self, i))
               \<in> measure (\<lambda>(c, self, i). list_length c (key self) - i)"
    by auto
qed

declare iter_from.simps [simp del]

definition RedisList_iter :: "connection \<Rightarrow> view \<Rightarrow> pyval list outcome" where
  "RedisList_iter c self = iter_from c self 0"

subsection \<open>Iteration over the other views, and the builtins on values\<close>

definition RedisSet_iter :: "connection \<Rightarrow> view \<Rightarrow> pyval list outcome" where
  "RedisSet_iter c self =
     and_then (smembers c (key self))
       (\<lambda>s c'. case decode_each s of
                  Inl e \<Rightarrow> (Inl e, c')
                | Inr l \<Rightarrow> (Inr (map PyStr l), c'))"

definition RedisSet_len :: "connection \<Rightarrow> view \<Rightarrow> nat outcome" where
  "RedisSet_len c self = scard c (key self)"

definition fetch_dict :: "connection \<Rightarrow> view \<Rightarrow> (string \<times> string) list outcome" where
  "fetch_dict c self = hgetall c (key self)"

definition RedisDict_iter :: "connection \<Rightarrow> view \<Rightarrow> pyval list outcome" where
  "RedisDict_iter c self =
     and_then (fetch_dict c self) (\<lambda>d c'. (Inr (map (\<lambda>kv. PyBytes (fst kv)) d), c'))"

text \<open>
  \<^verbatim>\<open>RedisDict.__repr__\<close> fetches the whole hash for its rendering; the model returns
  what was fetched.
\<close>

definition RedisDict_repr :: "connection \<Rightarrow> view \<Rightarrow> (string \<times> string) list outcome" where
  "RedisDict_repr c self = fetch_dict c self"

text \<open>\<^verbatim>\<open>list(v)\<close>: the items that iterating over \<open>v\<close> yields.\<close>

definition py_list :: "connection \<Rightarrow> pyval \<Rightarrow> pyval list outcome" where
  "py_list c v =
     (case v of
        PyList xs \<Rightarrow> (Inr xs, c)
      | PyStr s \<Rightarrow> (Inr (map (\<lambda>ch. PyStr [ch]) s), c)
      | PyBytes b \<Rightarrow> (Inr (map (\<lambda>ch. PyInt (of_char ch)) b), c)
      | PyRedisList k \<Rightarrow> RedisList_iter c \<lparr>key = k\<rparr>
      | PyRedisSet k \<Rightarrow> RedisSet_iter c \<lparr>key = k\<rparr>
      | PyRedisDict k \<Rightarrow> RedisDict_iter c \<lparr>key = k\<rparr>
      | _ \<Rightarrow> (Inl TypeError, c))"

text \<open>\<^verbatim>\<open>xs[i:]\<close> on a Python list.\<close>

definition slice_from :: "'a list \<Rightarrow> int \<Rightarrow> 'a list" where
  "slice_from xs i =
     (let n = int (length xs); j = (if i < 0 then max 0 (n + i) else i)
      in drop (nat j) xs)"

text \<open>\<^verbatim>\<open>xs[0:i]\<close> on a Python list.\<close>

definition slice_to :: "'a list \<Rightarrow> int \<Rightarrow> 'a list" where
  "slice_to xs i =
     (let n = int (length xs); j = (if i < 0 then max 0 (n + i) else i)
      in take (nat j) xs)"

text \<open>
  Formatting a value into a message calls its \<^verbatim>\<open>__repr__\<close>: for a list view and a
  hash view that is a request to the store, which may fail; the set class defines none.
  Only the failure matters to the model.
\<close>

definition py_format :: "connection \<Rightarrow> pyval \<Rightarrow> unit outcome" where
  "py_format c v =
     (case v of
        PyRedisList k \<Rightarrow> and_then (RedisList_repr c \<lparr>key = k\<rparr>) (\<lambda>_ c'. (Inr (), c'))
      | PyRedisDict k \<Rightarrow> and_then (RedisDict_repr c \<lparr>key = k\<rparr>) (\<lambda>_ c'. (Inr (), c'))
      | _ \<Rightarrow> (Inr (), c))"

text \<open>
  \<^verbatim>\<open>raise_if_of_type\<close> raises when the value is not of the type; the message of the
  exception is formatted from the value first.
\<close>

definition raise_if_of_type :: "connection \<Rightarrow> pyval \<Rightarrow> pytype \<Rightarrow> unit outcome" where
  "raise_if_of_type c v typ =
     (if \<not> isinstance v typ then and_then (py_format c v) (\<lambda>_ c'. (Inl TypeError, c'))
      else (Inr (), c))"

subsection \<open>RedisList, continued\<close>

definition RedisList_extend :: "connection \<Rightarrow> view \<Rightarrow> pyval \<Rightarrow> pyval outcome" where
  "RedisList_extend c self iterable =
     and_then (py_list c iterable)
       (\<lambda>values c'. and_then (rpush c' (key self) values) (\<lambda>_ c''. (Inr PyNone, c'')))"

definition RedisList_iadd :: "connection \<Rightarrow> view \<Rightarrow> pyval \<Rightarrow> pyval outcome" where
  "RedisList_iadd c self new_list =
     and_then (raise_if_of_type c new_list T_Iterable)
       (\<lambda>_ c0.
          and_then (if \<not> isinstance new_list T_list
                    then and_then (py_list c0 new_list) (\<lambda>xs c'. (Inr (PyList xs), c'))
                    else (Inr new_list, c0))
            (\<lambda>new_list c'.
               and_then (RedisList_append c' self [new_list]) (\<lambda>_ c''. (Inr PyNone, c''))))"

text \<open>
  The loop of \<^verbatim>\<open>__imul__\<close>: \<open>n\<close> rounds of \<^verbatim>\<open>self.extend(current)\<close>, where
  \<^verbatim>\<open>current\<close> is the view itself and is read anew in every round.
\<close>

fun imul_loop :: "connection \<Rightarrow> view \<Rightarrow> pyval \<Rightarrow> nat \<Rightarrow> unit outcome" where
  "imul_loop c self current 0 = (Inr (), c)"
| "imul_loop c self current (Suc n) =
     (case RedisList_extend c self current of
        (Inl e, c') \<Rightarrow> (Inl e, c')
      | (Inr _, c') \<Rightarrow> imul_loop c' self current n)"

definition RedisList_imul :: "connection \<Rightarrow> view \<Rightarrow> pyval \<Rightarrow> pyval outcome" where
  "RedisList_imul c self v =
     and_then (raise_if_of_type c v T_int)
       (\<lambda>_ c0.
          (case v of
             PyInt n \<Rightarrow>
               and_then (if n < 1 then RedisList_clear c0 self else (Inr PyNone, c0))
                 (\<lambda>_ c'.
                    and_then (if n > 1
                              then imul_loop c' self (PyRedisList (key self)) (nat (n - 1))
                              else (Inr (), c'))
                      (\<lambda>_ c''. (Inr PyNone, c'')))
           | _ \<Rightarrow> (Inl TypeError, c0)))"

text \<open>
  \<^verbatim>\<open>insert\<close>: the list is read before the \<^verbatim>\<open>try\<close>; whatever is raised inside it
  is replaced by a \<open>ValueError\<close>, and what was written before stays.
\<close>

definition RedisList_insert :: "connection \<Rightarrow> view \<Rightarrow> int \<Rightarrow> pyval \<Rightarrow> pyval outcome" where
  "RedisList_insert c self i v =
     and_then (py_list c (PyRedisList (key self)))
       (\<lambda>full_list c1.
          (let post = slice_from full_list i
           in case and_then (ltrim c1 (key self) 0 (i - 1))
                     (\<lambda>res c2. and_then (RedisList_append c2 self [v])
                        (\<lambda>_ c3. RedisList_extend c3 self (PyList post)))
              of (Inl e, c') \<Rightarrow> (Inl ValueError, c')
               | (Inr _, c') \<Rightarrow> (Inr PyNone, c')))"

text \<open>\<^verbatim>\<open>len(v)\<close> and \<^verbatim>\<open>set(v)\<close>; the items of a set have to be hashable.\<close>

definition llen :: "connection \<Rightarrow> string \<Rightarrow> nat outcome" where
  "llen c k = (case list_at c k of Inl e \<Rightarrow> (Inl e, c) | Inr xs \<Rightarrow> (Inr (length xs), c))"

definition hlen :: "connection \<Rightarrow> string \<Rightarrow> nat outcome" where
  "hlen c k = (case hash_at c k of Inl e \<Rightarrow> (Inl e, c) | Inr kvs \<Rightarrow> (Inr (length kvs), c))"

definition py_len :: "connection \<Rightarrow> pyval \<Rightarrow> nat outcome" where
  "py_len c v =
     (case v of
        PyList xs \<Rightarrow> (Inr (length xs), c)
      | PyStr s \<Rightarrow> (Inr (length s), c)
      | PyBytes b \<Rightarrow> (Inr (length b), c)
      | PyRedisList k \<Rightarrow> llen c k
      | PyRedisSet k \<Rightarrow> RedisSet_len c \<lparr>key = k\<rparr>
      | PyRedisDict k \<Rightarrow> hlen c k
      | _ \<Rightarrow> (Inl TypeError, c))"

definition hashable :: "pyval \<Rightarrow> bool" where
  "hashable v =
     (case v of PyNone \<Rightarrow> True | PyInt _ \<Rightarrow> True | PyStr _ \<Rightarrow> True | PyBytes _ \<Rightarrow> True
      | _ \<Rightarrow> False)"

definition py_set :: "connection \<Rightarrow> pyval \<Rightarrow> pyval set outcome" where
  "py_set c v =
     and_then (py_list c v)
       (\<lambda>xs c'. if list_all hashable xs then (Inr (set xs), c') else (Inl TypeError, c'))"

subsection \<open>RedisSet\<close>

definition RedisSet_discard :: "connection \<Rightarrow> view \<Rightarrow> pyval \<Rightarrow> pyval outcome" where
  "RedisSet_discard c self element =
     and_then (srem c (key self) element) (\<lambda>_ c'. (Inr PyNone, c'))"

definition RedisSet_remove :: "connection \<Rightarrow> view \<Rightarrow> pyval \<Rightarrow> pyval outcome" where
  "RedisSet_remove c self element =
     and_then (srem c (key self) element)
       (\<lambda>r c'. if r = 0 then (Inl KeyError, c') else (Inr PyNone, c'))"

text \<open>
  \<^verbatim>\<open>[o.key for o in others if isinstance(o, cls)]\<close>, where \<^verbatim>\<open>cls\<close> is the class
  of the receiver.
\<close>

definition keys_of_class :: "pytype \<Rightarrow> pyval list \<Rightarrow> string list" where
  "keys_of_class cls others =
     List.map_filter
       (\<lambda>o'. if isinstance o' cls then (case o' of PyRedisSet k \<Rightarrow> Some k | _ \<Rightarrow> None) else None)
       others"

text \<open>
  The three operations that return a new set. \<open>uid\<close> is the integer that
  \<^verbatim>\<open>uuid.uuid1().int\<close> produces; the new view is built from the attribute
  \<^verbatim>\<open>con\<close> of the receiver and that integer as its key, then the store computes the
  result into the key.
\<close>

definition RedisSet_difference :: "connection \<Rightarrow> view \<Rightarrow> int \<Rightarrow> pyval list \<Rightarrow> pyval outcome" where
  "RedisSet_difference c self uid others =
     (let cls = T_RedisSet;
          other_keys = keys_of_class cls others;
          new_key = PyInt uid
      in case instance_attribute self ''con'' of
           Inl e \<Rightarrow> (Inl e, c)
         | Inr con \<Rightarrow>
             (case RedisDSBase_init new_key of
                Inl e \<Rightarrow> (Inl e, c)
              | Inr other \<Rightarrow>
                  and_then (sdiffstore c new_key (key self # other_keys))
                    (\<lambda>_ c'. (Inr (PyRedisSet (key other)), c'))))"

definition RedisSet_intersection :: "connection \<Rightarrow> view \<Rightarrow> int \<Rightarrow> pyval list \<Rightarrow> pyval outcome" where
  "RedisSet_intersection c self uid others =
     (let cls = T_RedisSet;
          other_keys = keys_of_class cls others;
          new_key = PyInt uid
      in case instance_attribute self ''con'' of
           Inl e \<Rightarrow> (Inl e, c)
         | Inr con \<Rightarrow>
             (case RedisDSBase_init new_key of
                Inl e \<Rightarrow> (Inl e, c)
              | Inr other \<Rightarrow>
                  and_then (sinterstore c new_key (key self # other_keys))
                    (\<lambda>_ c'. (Inr (PyRedisSet (key other)), c'))))"

definition RedisSet_union :: "connection \<Rightarrow> view \<Rightarrow> int \<Rightarrow> pyval list \<Rightarrow> pyval outcome" where
  "RedisSet_union c self uid others =
     (let cls = T_RedisSet;
          other_keys = keys_of_class cls others;
          new_key = PyInt uid
      in case instance_attribute self ''con'' of
           Inl e \<Rightarrow> (Inl e, c)
         | Inr con \<Rightarrow>
             (case RedisDSBase_init new_key of
                Inl e \<Rightarrow> (Inl e, c)
              | Inr final \<Rightarrow>
                  and_then (sunionstore c new_key (key self # other_keys))
                    (\<lambda>_ c'. (Inr (PyRedisSet (key final)), c'))))"

definition RedisSet_eq :: "connection \<Rightarrow> view \<Rightarrow> pyval \<Rightarrow> bool outcome" where
  "RedisSet_eq c self other =
     and_then (RedisSet_len c self)
       (\<lambda>n c1. and_then (py_len c1 other)
          (\<lambda>m c2. if n = m
                   then and_then (py_set c2 (PyRedisSet (key self)))
                          (\<lambda>s c3. and_then (py_set c3 other)
                             (\<lambda>t c4. if s = t then (Inr True, c4) else (Inr False, c4)))
                   else (Inr False, c2)))"

definition RedisSet_ne :: "connection \<Rightarrow> view \<Rightarrow> pyval \<Rightarrow> bool outcome" where
  "RedisSet_ne c self other =
     (if \<not> isinstance other T_RedisSet then (Inl TypeError, c)
      else and_then (RedisSet_eq c self other) (\<lambda>b c'. (Inr (\<not> b), c')))"

subsection \<open>RedisDict\<close>

text \<open>
  \<^verbatim>\<open>__getitem__\<close> builds its exception from the variable \<^verbatim>\<open>key\<close>; the variables
  of the body are \<^verbatim>\<open>self\<close>, \<^verbatim>\<open>field\<close> and \<^verbatim>\<open>val\<close>.
\<close>

definition RedisDict_getitem :: "connection \<Rightarrow> view \<Rightarrow> pyval \<Rightarrow> pyval outcome" where
  "RedisDict_getitem c self field =
     and_then (hget c (key self) field)
       (\<lambda>val c'. case val of
                    Some b \<Rightarrow> (Inr (PyBytes b), c')
                  | None \<Rightarrow> (case read_name [''self'', ''field'', ''val''] ''key'' of
                               Inl e \<Rightarrow> (Inl e, c')
                             | Inr _ \<Rightarrow> (Inl KeyError, c')))"

definition RedisDict_get :: "connection \<Rightarrow> view \<Rightarrow> pyval \<Rightarrow> pyval \<Rightarrow> pyval outcome" where
  "RedisDict_get c self k default' =
     (case RedisDict_getitem c self k of
        (Inl e, c') \<Rightarrow> if e = KeyError then (Inr default', c') else (Inl e, c')
      | (Inr v, c') \<Rightarrow> (Inr v, c'))"

subsection \<open>Connections for concrete runs\<close>

text \<open>
  A connection to a store with the given contents, through a client that refuses every
  value that is neither bytes, text nor an integer.
\<close>

definition conn :: "(string \<times> rvalue) list \<Rightarrow> connection" where
  "conn kvs = \<lparr>db = map_of kvs, encode_other = (\<lambda>_. Inl DataError)\<rparr>"

text \<open>The text whose code points are the values of the given characters.\<close>

definition ascii :: "string \<Rightarrow> str" where
  "ascii s = map of_char s"

section \<open>Properties\<close>

subsection \<open>UTF-8: encoding undoes decoding\<close>

lemma split64: "y < 64 \<Longrightarrow> (x * 64 + y) div 64 = x \<and> (x * 64 + y) mod 64 = (y::nat)"
  by simp

lemma enc2:
  assumes "2 \<le> x" "x < 32" "y < 64"
  shows "utf8_encode_char (x * 64 + y) = Some [192 + x, 128 + y]"
proof -
  have "(x * 64 + y) div 64 = x" "(x * 64 + y) mod 64 = y" using assms split64 by simp_all
  moreover have "128 \<le> x * 64 + y" "x * 64 + y < 2048" using assms by simp_all
  ultimately show ?thesis by (simp add: utf8_encode_char_def)
qed

lemma enc3:
  assumes "x < 16" "y < 64" "z < 64" "x = 0 \<Longrightarrow> 32 \<le> y" "x = 13 \<Longrightarrow> y < 32"
  shows "utf8_encode_char (x * 4096 + y * 64 + z) = Some [224 + x, 128 + y, 128 + z]"
proof -
  define cp where "cp = x * 4096 + y * 64 + z"
  have e1: "cp = (x * 64 + y) * 64 + z" by (simp add: cp_def)
  have c: "cp mod 64 = z" and d: "cp div 64 = x * 64 + y"
    using split64 [OF assms(3), of "x * 64 + y"] by (simp_all add: e1)
  have b: "cp div 64 mod 64 = y" and a0: "cp div 64 div 64 = x"
    using split64 [OF assms(2), of x] by (simp_all add: d)
  have a: "cp div 4096 = x"
    using a0 by (simp add: div_mult2_eq [symmetric])
  have lo: "2048 \<le> cp" using assms(4) by (cases "x = 0") (simp_all add: cp_def)
  have hi: "cp < 65536" using assms(1,2,3) by (simp add: cp_def)
  have ns: "cp < 55296 \<or> 57344 \<le> cp"
  proof (cases "x = 13")
    case True then show ?thesis using assms(5,3) by (simp add: cp_def)
  next
    case False
    then have "x \<le> 12 \<or> 14 \<le> x" by arith
    then show ?thesis using assms(2,3) by (auto simp: cp_def)
  qed
  have "utf8_encode_char cp = Some [224 + x, 128 + y, 128 + z]"
    using a b c lo hi ns by (auto simp: utf8_encode_char_def)
  then show ?thesis by (simp add: cp_def)
qed

lemma enc4:
  assumes "x < 5" "y < 64" "z < 64" "w < 64" "x = 0 \<Longrightarrow> 16 \<le> y" "x = 4 \<Longrightarrow> y < 16"
  shows "utf8_encode_char (x * 262144 + y * 4096 + z * 64 + w)
           = Some [240 + x, 128 + y, 128 + z, 128 + w]"
proof -
  define cp where "cp = x * 262144 + y * 4096 + z * 64 + w"
  have e1: "cp = ((x * 64 + y) * 64 + z) * 64 + w" by (simp add: cp_def)
  have d: "cp mod 64 = w" and d1: "cp div 64 = (x * 64 + y) * 64 + z"
    using split64 [OF assms(4), of "(x * 64 + y) * 64 + z"] by (simp_all add: e1)
  have c: "cp div 64 mod 64 = z" and c1: "cp div 64 div 64 = x * 64 + y"
    using split64 [OF assms(3), of "x * 64 + y"] by (simp_all add: d1)
  have b0: "cp div 64 div 64 mod 64 = y" and a0: "cp div 64 div 64 div 64 = x"
    using split64 [OF assms(2), of x] by (simp_all add: c1)
  have b: "cp div 4096 mod 64 = y"
    using b0 by (simp add: div_mult2_eq [symmetric])
  have a: "cp div 262144 = x"
    using a0 by (simp add: div_mult2_eq [symmetric])
  have lo: "65536 \<le> cp" using assms(5) by (cases "x = 0") (simp_all add: cp_def)
  have hi: "cp < 1114112"
  proof (cases "x = 4")
    case True then show ?thesis using assms(6,3,4) by (simp add: cp_def)
  next
    case False
    then have "x \<le> 3" using assms(1) by arith
    then show ?thesis using assms(2,3,4) by (simp add: cp_def)
  qed
  have "utf8_encode_char cp = Some [240 + x, 128 + y, 128 + z, 128 + w]"
    using a b c d lo hi by (auto simp: utf8_encode_char_def)
  then show ?thesis by (simp add: cp_def)
qed

lemma decode2_encode:
  assumes "decode2 b0 bs = Some (cp, r)" and "194 \<le> b0" and "b0 < 224"
  shows "\<exists>e. utf8_encode_char cp = Some e \<and> b0 # bs = e @ r"
proof (cases "(b0, bs)" rule: decode2.cases)
  case (1 b0' b1 r')
  with assms(1) have k: "continuation b1" and cp: "cp = (b0 - 192) * 64 + (b1 - 128)"
    and r: "r = r'" and bs: "bs = b1 # r'"
    by (auto split: if_splits)
  have "utf8_encode_char cp = Some [192 + (b0 - 192), 128 + (b1 - 128)]"
    unfolding cp using assms(2,3) k by (intro enc2) (auto simp: continuation_def)
  then show ?thesis using assms(2) k bs r by (simp add: continuation_def)
qed (use assms(1) in simp_all)

lemma decode3_encode:
  assumes "decode3 b0 bs = Some (cp, r)" and "224 \<le> b0" and "b0 < 240"
  shows "\<exists>e. utf8_encode_char cp = Some e \<and> b0 # bs = e @ r"
proof (cases "(b0, bs)" rule: decode3.cases)
  case (1 b0' b1 b2 r')
  with assms(1) have k: "second_ok b0 b1" "continuation b2"
    and cp: "cp = (b0 - 224) * 4096 + (b1 - 128) * 64 + (b2 - 128)"
    and r: "r = r'" and bs: "bs = b1 # b2 # r'"
    by (auto split: if_splits)
  have b1: "128 \<le> b1" "b1 < 192"
    using k(1) by (auto simp: second_ok_def split: if_splits)
  have "utf8_encode_char cp = Some [224 + (b0 - 224), 128 + (b1 - 128), 128 + (b2 - 128)]"
    unfolding cp using assms(2,3) k b1
    by (intro enc3) (auto simp: continuation_def second_ok_def split: if_splits)
  then show ?thesis using assms(2) k(2) b1 bs r by (simp add: continuation_def)
qed (use assms(1) in simp_all)

lemma decode4_encode:
  assumes "decode4 b0 bs = Some (cp, r)" and "240 \<le> b0" and "b0 < 245"
  shows "\<exists>e. utf8_encode_char cp = Some e \<and> b0 # bs = e @ r"
proof (cases "(b0, bs)" rule: decode4.cases)
  case (1 b0' b1 b2 b3 r')
  with assms(1) have k: "second_ok b0 b1" "continuation b2" "continuation b3"
    and cp: "cp = (b0 - 240) * 262144 + (b1 - 128) * 4096 + (b2 - 128) * 64 + (b3 - 128)"
    and r: "r = r'" and bs: "bs = b1 # b2 # b3 # r'"
    by (auto split: if_splits)
  have b1: "128 \<le> b1" "b1 < 192"
    using k(1) by (auto simp: second_ok_def split: if_splits)
  have "utf8_encode_char cp
          = Some [240 + (b0 - 240), 128 + (b1 - 128), 128 + (b2 - 128), 128 + (b3 - 128)]"
    unfolding cp using assms(2,3) k b1
    by (intro enc4) (auto simp: continuation_def second_ok_def split: if_splits)
  then show ?thesis using assms(2) k(2,3) b1 bs r by (simp add: continuation_def)
qed (use assms(1) in simp_all)

lemma utf8_next_encode:
  assumes "utf8_next bs = Some (cp, r)"
  shows "\<exists>e. utf8_encode_char cp = Some e \<and> bs = e @ r"
proof (cases bs)
  case Nil
  with assms show ?thesis by simp
next
  case (Cons b0 r0)
  consider "b0 < 128" | "194 \<le> b0 \<and> b0 < 224" | "224 \<le> b0 \<and> b0 < 240"
    | "240 \<le> b0 \<and> b0 < 245" | "(128 \<le> b0 \<and> b0 < 194) \<or> 245 \<le> b0"
    by linarith
  then show ?thesis
  proof cases
    case 1
    with assms Cons show ?thesis by (simp add: utf8_encode_char_def)
  next
    case 2
    with assms Cons have "decode2 b0 r0 = Some (cp, r)" by simp
    with 2 Cons show ?thesis using decode2_encode by blast
  next
    case 3
    with assms Cons have "decode3 b0 r0 = Some (cp, r)" by simp
    with 3 Cons show ?thesis using decode3_encode by blast
  next
    case 4
    with assms Cons have "decode4 b0 r0 = Some (cp, r)" by simp
    with 4 Cons show ?thesis using decode4_encode by blast
  next
    case 5
    with assms Cons show ?thesis by auto
  qed
qed

lemma utf8_roundtrip: "utf8_decode bs = Some t \<Longrightarrow> utf8_encode t = Some bs"
proof (induction bs arbitrary: t rule: utf8_decode.induct)
  case (1 bs)
  show ?case
  proof (cases "bs = []")
    case True
    with "1.prems" show ?thesis by (simp add: utf8_decode.simps)
  next
    case False
    with "1.prems" obtain cp r t' where n: "utf8_next bs = Some (cp, r)"
      and d: "utf8_decode r = Some t'" and t: "t = cp # t'"
      by (subst (asm) utf8_decode.simps) (auto split: option.splits)
    from "1.IH" [OF False n refl d] have "utf8_encode t' = Some r" .
    moreover from utf8_next_encode [OF n] obtain e where
      "utf8_encode_char cp = Some e" "bs = e @ r" by blast
    ultimately show ?thesis by (simp add: t)
  qed
qed

text \<open>What \<^verbatim>\<open>DECODER\<close> accepts, the client transmits back as the same bytes.\<close>

lemma DECODER_encode: "DECODER b = Inr t \<Longrightarrow> encode_text t = Inr b"
proof -
  assume "DECODER b = Inr t"
  then have "utf8_decode (map of_char b) = Some t"
    by (simp add: DECODER_def split: option.splits)
  then have "utf8_encode t = Some (map of_char b)"
    by (rule utf8_roundtrip)
  then show ?thesis
    by (simp add: encode_text_def comp_def)
qed

lemma DECODER_error: "DECODER b = Inl e \<Longrightarrow> e = UnicodeDecodeError"
  by (auto simp: DECODER_def split: option.splits)

lemma utf8_decode_ascii: "list_all (\<lambda>n. n < 128) ns \<Longrightarrow> utf8_decode ns = Some ns"
  by (induction ns) (simp_all add: utf8_decode.simps)

lemma DECODER_ascii:
  "list_all (\<lambda>ch. (of_char ch :: nat) < 128) b \<Longrightarrow> DECODER b = Inr (ascii b)"
  by (simp add: DECODER_def ascii_def utf8_decode_ascii list_all_iff)

lemma encode_text_ascii:
  "list_all (\<lambda>ch. (of_char ch :: nat) < 128) b \<Longrightarrow> encode_text (ascii b) = Inr b"
  using DECODER_encode [OF DECODER_ascii] .

lemma decode_each_error: "decode_each bs = Inl e \<Longrightarrow> e = UnicodeDecodeError"
  by (induction bs) (auto split: sum.splits dest: DECODER_error)

lemma decode_each_length: "decode_each bs = Inr ts \<Longrightarrow> length ts = length bs"
  by (induction bs arbitrary: ts) (auto split: sum.splits)

lemma decode_each_drop: "decode_each bs = Inr ts \<Longrightarrow> decode_each (drop n bs) = Inr (drop n ts)"
proof (induction bs arbitrary: ts n)
  case Nil
  then show ?case by simp
next
  case (Cons b bs)
  then show ?case by (cases n) (auto split: sum.splits)
qed

lemma decode_each_encode_all:
  "decode_each bs = Inr ts \<Longrightarrow> encode_all c (map PyStr ts) = Inr bs"
  by (induction bs arbitrary: ts)
     (auto simp: encode_def split: sum.splits dest: DECODER_encode)

lemma decode_each_ascii:
  "list_all (list_all (\<lambda>ch. (of_char ch :: nat) < 128)) bs \<Longrightarrow> decode_each bs = Inr (map ascii bs)"
  by (induction bs) (simp_all add: DECODER_ascii)

subsection \<open>The store and iteration\<close>

lemma db_conn: "db (conn kvs) = map_of kvs"
  by (simp add: conn_def)

lemma encode_store_list: "encode (store_list c k xs) v = encode c v"
  by (simp add: encode_def store_list_def split: pyval.splits)

lemma encode_all_store_list: "encode_all (store_list c k xs) vs = encode_all c vs"
  by (induction vs) (simp_all add: encode_store_list split: sum.splits)

lemma list_at_store_list: "list_at (store_list c k xs) k = Inr xs"
  by (simp add: list_at_def store_list_def)

lemma store_list_twice: "store_list (store_list c k xs) k ys = store_list c k ys"
  by (simp add: store_list_def)

lemma list_at_error: "list_at c k = Inl e \<Longrightarrow> e = ResponseError"
  by (auto simp: list_at_def split: option.splits rvalue.splits)

lemma in_range_inner:
  assumes "0 \<le> a" and "a \<le> b" and "b < int (length xs)"
  shows "in_range xs a b = take (nat (b - a + 1)) (drop (nat a) xs)"
  using assms by (auto simp: in_range_def range_of_def Let_def)

lemma int64_nat: "int n < 2 ^ 63 \<Longrightarrow> int64 (int n)"
  by (simp add: int64_def)

lemma lindex_at:
  assumes "list_at c k = Inr xs" and "int64 i"
  shows "lindex c k i =
           (let n = int (length xs); j = (if i < 0 then n + i else i)
            in (Inr (if 0 \<le> j \<and> j < n then Some (xs ! nat j) else None), c))"
  using assms
  by (auto simp: lindex_def list_at_def Let_def split: option.splits rvalue.splits)

text \<open>
  Item access on a key that holds a list: the item is returned when the position exists,
  its element is not the empty string and the element decodes.
\<close>

lemma getitem_at:
  assumes "list_at c (key self) = Inr xs" and "int i < 2 ^ 63"
  shows "RedisList_getitem c self (PyInt (int i)) =
           (if i < length xs \<and> xs ! i \<noteq> []
            then (case DECODER (xs ! i) of Inl e \<Rightarrow> Inl e | Inr s \<Rightarrow> Inr (PyStr s))
            else Inl IndexError, c)"
  using assms
  by (simp add: RedisList_getitem_def and_then_def lindex_at int64_nat Let_def
      split: sum.splits)

text \<open>
  Iteration ends; it yields the elements up to the first empty string, decoded, and
  raises at the first of them that does not decode.
\<close>

lemma iter_from_list:
  assumes "list_at c (key self) = Inr xs" and "int (length xs) < 2 ^ 63" and "i \<le> length xs"
  shows "iter_from c self i =
           (case decode_each (takeWhile (\<lambda>b. b \<noteq> []) (drop i xs)) of
              Inl e \<Rightarrow> Inl e
            | Inr ts \<Rightarrow> Inr (map PyStr ts), c)"
  using assms(3)
proof (induction "length xs - i" arbitrary: i)
  case 0
  then have "drop i xs = []" and "\<not> i < length xs" and "int i < 2 ^ 63"
    using assms(2) by simp_all
  then show ?case
    using assms(1) by (subst iter_from.simps) (simp add: getitem_at)
next
  case (Suc n)
  then have lt: "i < length xs" by simp
  then have dr: "drop i xs = xs ! i # drop (Suc i) xs"
    by (simp add: Cons_nth_drop_Suc)
  have i63: "int i < 2 ^ 63"
    using lt assms(2) by simp
  from Suc have "n = length xs - Suc i" and "Suc i \<le> length xs" by simp_all
  then have IH: "iter_from c self (Suc i) =
      (case decode_each (takeWhile (\<lambda>b. b \<noteq> []) (drop (Suc i) xs)) of
         Inl e \<Rightarrow> Inl e
       | Inr ts \<Rightarrow> Inr (map PyStr ts), c)"
    by (rule Suc.hyps(1))
  show ?case
  proof (cases "xs ! i = []")
    case True
    then show ?thesis
      using assms(1) lt i63 by (subst iter_from.simps) (simp add: getitem_at dr)
  next
    case False
    show ?thesis
    proof (cases "DECODER (xs ! i)")
      case (Inl e)
      then have "e \<noteq> IndexError" by (auto dest: DECODER_error)
      then show ?thesis
        using assms(1) lt i63 False Inl by (subst iter_from.simps) (simp add: getitem_at dr)
    next
      case (Inr s)
      then show ?thesis
        using assms(1) lt i63 False
        by (subst iter_from.simps) (simp add: getitem_at dr IH split: sum.splits)
    qed
  qed
qed

lemma py_list_RedisList:
  assumes "list_at c k = Inr xs" and "int (length xs) < 2 ^ 63"
  shows "py_list c (PyRedisList k) =
           (case decode_each (takeWhile (\<lambda>b. b \<noteq> []) xs) of
              Inl e \<Rightarrow> Inl e
            | Inr ts \<Rightarrow> Inr (map PyStr ts), c)"
  using iter_from_list [of c "\<lparr>key = k\<rparr>" xs 0] assms
  by (simp add: py_list_def RedisList_iter_def)

lemma ltrim_at:
  assumes "list_at c k = Inr xs" and "int64 s" and "int64 e"
  shows "ltrim c k s e = (Inr (), store_list c k (in_range xs s e))"
  using assms by (simp add: ltrim_def)

lemma append_at:
  assumes "list_at c (key self) = Inr xs" and "encode_all c vs = Inr bs" and "bs \<noteq> []"
  shows "RedisList_append c self vs = (Inr PyNone, store_list c (key self) (xs @ bs))"
  using assms by (simp add: RedisList_append_def rpush_def and_then_def)

lemma extend_at:
  assumes "list_at c (key self) = Inr xs" and "encode_all c vs = Inr bs" and "bs \<noteq> []"
  shows "RedisList_extend c self (PyList vs)
           = (Inr PyNone, store_list c (key self) (xs @ bs))"
  using assms
  by (simp add: RedisList_extend_def py_list_def rpush_def and_then_def)

lemma extend_empty: "RedisList_extend c self (PyList []) = (Inl ResponseError, c)"
  by (simp add: RedisList_extend_def py_list_def rpush_def and_then_def)

text \<open>Reading a value does not change the store.\<close>

lemma getitem_conn: "snd (RedisList_getitem c self index) = c"
  by (auto simp: RedisList_getitem_def RedisList_sliced_def and_then_def lindex_def lrange_def
      Let_def split: pyval.splits sum.splits option.splits rvalue.splits if_splits)

lemma iter_from_conn: "snd (iter_from c self i) = c"
proof (induction c self i rule: iter_from.induct)
  case (1 c self i)
  obtain x c' where g: "RedisList_getitem c self (PyInt (int i)) = (x, c')"
    by (cases "RedisList_getitem c self (PyInt (int i))")
  then have c': "c' = c"
    using getitem_conn [of c self "PyInt (int i)"] by simp
  show ?case
  proof (cases x)
    case (Inl e)
    with g c' show ?thesis by (subst iter_from.simps) simp
  next
    case (Inr v)
    with "1.IH" [OF g [symmetric] Inr] c' have "snd (iter_from c self (Suc i)) = c"
      by simp
    with g c' Inr show ?thesis
      by (subst iter_from.simps) (auto split: prod.splits sum.splits)
  qed
qed

lemma py_list_conn: "snd (py_list c v) = c"
  by (cases v)
     (auto simp: py_list_def RedisList_iter_def iter_from_conn RedisSet_iter_def smembers_def
        RedisDict_iter_def fetch_dict_def hgetall_def and_then_def split: sum.splits)

lemma py_len_conn: "snd (py_len c v) = c"
  by (cases v)
     (auto simp: py_len_def llen_def hlen_def RedisSet_len_def scard_def split: sum.splits)

lemma py_set_conn: "snd (py_set c v) = c"
  using py_list_conn [of c v]
  by (cases "py_list c v") (auto simp: py_set_def and_then_def split: sum.splits)

subsection \<open>Insertion into a list\<close>

text \<open>
  What \<^verbatim>\<open>insert(i, v)\<close> does on a list \<open>xs\<close> of decodable elements, none of them
  empty, for every index in the range of the store's integers: the store keeps the range
  from 0 to \<open>i - 1\<close>, then receives the value and the tail \<^verbatim>\<open>xs[i:]\<close>; the call
  ends in a \<open>ValueError\<close> when that tail is empty, since the store refuses a push of no
  values.
\<close>

lemma insert_general:
  assumes "list_at c (key self) = Inr xs" and "[] \<notin> set xs" and "int (length xs) < 2 ^ 63"
      and "decode_each xs = Inr ts" and "encode c v = Inr b" and "int64 (i - 1)"
  shows "RedisList_insert c self i v =
           (if slice_from xs i = [] then Inl ValueError else Inr PyNone,
            store_list c (key self) (in_range xs 0 (i - 1) @ [b] @ slice_from xs i))"
proof -
  have tw: "takeWhile (\<lambda>b. b \<noteq> []) xs = xs"
    using assms(2) by (induction xs) auto
  have len: "length ts = length xs"
    using assms(4) by (rule decode_each_length)
  have sl: "slice_from (map PyStr ts) i = map PyStr (slice_from ts i)"
    by (simp add: slice_from_def Let_def drop_map)
  have dd: "decode_each (slice_from xs i) = Inr (slice_from ts i)"
    using decode_each_drop [OF assms(4)] by (simp add: slice_from_def Let_def len)
  have em: "slice_from ts i = [] \<longleftrightarrow> slice_from xs i = []"
    by (simp add: slice_from_def Let_def len)
  have z: "int64 0"
    by (simp add: int64_def)
  let ?c2 = "store_list c (key self) (in_range xs 0 (i - 1))"
  let ?c3 = "store_list c (key self) (in_range xs 0 (i - 1) @ [b])"
  have ap: "RedisList_append ?c2 self [v] = (Inr PyNone, ?c3)"
    using append_at [of ?c2 self "in_range xs 0 (i - 1)" "[v]" "[b]"] assms(5)
    by (simp add: list_at_store_list encode_store_list store_list_twice)
  have ex: "slice_from xs i \<noteq> [] \<Longrightarrow>
      RedisList_extend ?c3 self (PyList (map PyStr (slice_from ts i)))
        = (Inr PyNone, store_list c (key self) (in_range xs 0 (i - 1) @ [b] @ slice_from xs i))"
    using extend_at [of ?c3 self "in_range xs 0 (i - 1) @ [b]" "map PyStr (slice_from ts i)"
                        "slice_from xs i"] decode_each_encode_all [OF dd, of ?c3]
    by (simp add: list_at_store_list store_list_twice)
  have ex0: "slice_from xs i = [] \<Longrightarrow>
      RedisList_extend ?c3 self (PyList (map PyStr (slice_from ts i))) = (Inl ResponseError, ?c3)"
    using em by (simp add: extend_empty)
  show ?thesis
    by (simp add: RedisList_insert_def py_list_RedisList [OF assms(1,3)] tw assms(4) sl Let_def
        and_then_def ltrim_at [OF assms(1) z assms(6)] ap ex ex0)
qed

text \<open>Strictly inside the list, the element lands before position \<open>i\<close>.\<close>

lemma insert_inner:
  assumes "list_at c (key self) = Inr xs" and "[] \<notin> set xs" and "int (length xs) < 2 ^ 63"
      and "decode_each xs = Inr ts" and "encode c v = Inr b"
      and "0 < i" and "i < int (length xs)"
  shows "RedisList_insert c self i v =
           (Inr PyNone, store_list c (key self) (slice_to xs i @ [b] @ slice_from xs i))"
proof -
  have "in_range xs 0 (i - 1) = take (nat i) xs"
    using assms(6,7) by (auto simp: in_range_def range_of_def Let_def nat_diff_distrib)
  moreover have "slice_to xs i = take (nat i) xs"
    using assms(6) by (simp add: slice_to_def)
  moreover have "slice_from xs i \<noteq> []"
    using assms(6,7) by (simp add: slice_from_def)
  moreover have "int64 (i - 1)"
    using assms(3,6,7) by (simp add: int64_def)
  ultimately show ?thesis
    by (simp add: insert_general [OF assms(1,2,3,4,5)])
qed

text \<open>
  C1. The claim: after \<^verbatim>\<open>insert(i, v)\<close> on contents \<open>L\<close> the contents are
  \<open>L[0:i] @ [v] @ L[i:]\<close>, also for \<open>i = 0\<close>. At \<open>i = 0\<close> the store is asked to keep
  the range from 0 to -1, which is the whole list: on \<open>[a, b]\<close> the call returns
  normally and leaves \<open>[a, b, x, a, b]\<close>, where the claim has \<open>[x, a, b]\<close>.
\<close>

theorem insert_at_front:
  "fst (RedisList_insert (conn [(''q'', RList [''a'', ''b''])]) \<lparr>key = ''q''\<rparr> 0
          (PyStr (ascii ''x''))) = Inr PyNone \<and>
   list_at (snd (RedisList_insert (conn [(''q'', RList [''a'', ''b''])]) \<lparr>key = ''q''\<rparr> 0
                   (PyStr (ascii ''x'')))) ''q''
     = Inr [''a'', ''b'', ''x'', ''a'', ''b''] \<and>
   slice_to [''a'', ''b''] 0 @ [''x''] @ slice_from [''a'', ''b''] 0 = [''x'', ''a'', ''b'']"
proof -
  have l: "list_at (conn [(''q'', RList [''a'', ''b''])]) (key \<lparr>key = ''q''\<rparr>) = Inr [''a'', ''b'']"
    by (simp add: list_at_def db_conn)
  have n: "[] \<notin> set [''a'', ''b'']"
    by simp
  have g: "int (length [''a'', ''b'']) < 2 ^ 63"
    by simp
  have d: "decode_each [''a'', ''b''] = Inr (map ascii [''a'', ''b''])"
    by (rule decode_each_ascii) simp
  have e: "encode (conn [(''q'', RList [''a'', ''b''])]) (PyStr (ascii ''x'')) = Inr ''x''"
    by (simp add: encode_def encode_text_ascii)
  have m: "int64 (0 - 1)"
    by (simp add: int64_def)
  have r: "in_range [''a'', ''b''] 0 (- 1) = [''a'', ''b'']"
    by (simp add: in_range_def range_of_def)
  have s: "slice_from [''a'', ''b''] 0 = [''a'', ''b'']"
    by (simp add: slice_from_def)
  have "RedisList_insert (conn [(''q'', RList [''a'', ''b''])]) \<lparr>key = ''q''\<rparr> 0
          (PyStr (ascii ''x''))
      = (Inr PyNone, store_list (conn [(''q'', RList [''a'', ''b''])]) ''q''
           [''a'', ''b'', ''x'', ''a'', ''b''])"
    using insert_general [OF l n g d e m] by (simp add: r s)
  then show ?thesis
    by (simp add: list_at_store_list slice_to_def s)
qed

subsection \<open>Set algebra\<close>

text \<open>
  C2. The claim: every set algebra operation raises a \<open>TypeError\<close> when one of its
  operands is not a view of the same set class, and no entry point skips such an operand.
  The three operations that build a new set leave such an operand out of the key list
  without an error (from a set view and the integer 5 only the view's key is kept) and
  then raise \<open>AttributeError\<close>, whatever the operands are, when they read the
  attribute \<^verbatim>\<open>con\<close>.
\<close>

theorem set_algebra_attribute_error:
  "RedisSet_union c self uid others = (Inl AttributeError, c) \<and>
   RedisSet_intersection c self uid others = (Inl AttributeError, c) \<and>
   RedisSet_difference c self uid others = (Inl AttributeError, c) \<and>
   keys_of_class T_RedisSet [PyRedisSet ''b'', PyInt 5] = [''b'']"
  by (simp add: RedisSet_union_def RedisSet_intersection_def RedisSet_difference_def
      instance_attribute_def Let_def keys_of_class_def List.map_filter_def)

text \<open>
  C3. The claim: for \<open>a = {1, 2, 3}\<close> and \<open>b = {2, 3, 4}\<close>, \<^verbatim>\<open>a.intersection(b)\<close>
  returns a view on a new key that holds \<open>{2, 3}\<close>, and \<open>a\<close> and \<open>b\<close> stay as they
  are. The call raises \<open>AttributeError\<close> before it reaches the store: nothing is
  returned and no key is written.
\<close>

theorem intersection_scenario:
  "RedisSet_intersection
     (conn [(''a'', RSet [''1'', ''2'', ''3'']), (''b'', RSet [''2'', ''3'', ''4''])])
     \<lparr>key = ''a''\<rparr> uid [PyRedisSet ''b''] =
   (Inl AttributeError,
     conn [(''a'', RSet [''1'', ''2'', ''3'']), (''b'', RSet [''2'', ''3'', ''4''])])"
  by (simp add: RedisSet_intersection_def instance_attribute_def Let_def)

subsection \<open>Slices and items of a list\<close>

text \<open>The slice access without a step, for every pair of bounds and every key.\<close>

lemma sliced_no_step:
  "RedisList_getitem c self (PySlice (Some a) (Some b) None) =
     (if \<not> (int64 a \<and> int64 b) then Inl ResponseError
      else (case list_at c (key self) of
              Inl e \<Rightarrow> Inl e
            | Inr xs \<Rightarrow> (case decode_each (in_range xs a b) of
                          Inl e \<Rightarrow> Inl e
                        | Inr ts \<Rightarrow> Inr (PyList (map PyStr ts)))), c)"
  by (simp add: RedisList_getitem_def RedisList_sliced_def and_then_def lrange_def int_arg_def
      split: sum.splits)

text \<open>
  Two requests that the store or the decoder refuses: an end bound of \<open>2^63\<close>, and a
  stored byte \<open>0xFF\<close>.
\<close>

lemma sliced_beyond_int64:
  "RedisList_getitem (conn [(''q'', RList [''a'', ''b'', ''c''])]) \<lparr>key = ''q''\<rparr>
       (PySlice (Some 0) (Some (2 ^ 63)) None)
     = (Inl ResponseError, conn [(''q'', RList [''a'', ''b'', ''c''])])"
  by (simp add: sliced_no_step int64_def)

lemma sliced_undecodable:
  "RedisList_getitem (conn [(''q'', RList [[CHR 0xFF]])]) \<lparr>key = ''q''\<rparr>
       (PySlice (Some 0) (Some 0) None)
     = (Inl UnicodeDecodeError, conn [(''q'', RList [[CHR 0xFF]])])"
proof -
  have "utf8_decode (map of_char [CHR 0xFF]) = None"
    by (simp add: utf8_decode.simps)
  then have "decode_each [[CHR 0xFF]] = Inl UnicodeDecodeError"
    by (simp add: DECODER_def)
  moreover have "in_range [[CHR 0xFF]] 0 0 = [[CHR 0xFF]]"
    by (simp add: in_range_def range_of_def)
  ultimately show ?thesis
    by (simp add: sliced_no_step int64_def list_at_def db_conn)
qed

text \<open>
  C4, as the code has it. For every list, bounds \<open>a\<close> and \<open>b\<close> and step: the slice access
  raises \<open>NotImplementedError\<close> exactly when a step is given, whatever its value. With
  no step, bounds that fit the store's 64-bit integers and elements that decode, it
  returns the decoded elements that the store's range from \<open>a\<close> to \<open>b\<close> (both
  inclusive) selects, in order, and leaves the store as it is.
\<close>

theorem sliced_step:
  "(fst (RedisList_getitem c self (PySlice (Some a) (Some b) step)) = Inl NotImplementedError
      \<longleftrightarrow> step \<noteq> None) \<and>
   (list_at c (key self) = Inr xs \<longrightarrow> int64 a \<longrightarrow> int64 b \<longrightarrow>
    decode_each (in_range xs a b) = Inr ts \<longrightarrow>
      RedisList_getitem c self (PySlice (Some a) (Some b) None)
        = (Inr (PyList (map PyStr ts)), c))"
proof (intro conjI impI)
  show "fst (RedisList_getitem c self (PySlice (Some a) (Some b) step)) = Inl NotImplementedError
      \<longleftrightarrow> step \<noteq> None"
  proof (cases step)
    case None
    have "fst (RedisList_getitem c self (PySlice (Some a) (Some b) None))
            \<noteq> Inl NotImplementedError"
      by (auto simp: sliced_no_step split: sum.splits
          dest: list_at_error decode_each_error)
    with None show ?thesis by simp
  next
    case (Some s)
    then show ?thesis
      by (simp add: RedisList_getitem_def RedisList_sliced_def)
  qed
  show "RedisList_getitem c self (PySlice (Some a) (Some b) None)
          = (Inr (PyList (map PyStr ts)), c)"
    if "list_at c (key self) = Inr xs" "int64 a" "int64 b"
       "decode_each (in_range xs a b) = Inr ts"
    using that by (simp add: sliced_no_step)
qed

text \<open>The theorem on the list \<open>[a, b, c]\<close> with the bounds 0 and 1, without a step and with step 2.\<close>

theorem sliced_step_witness:
  "list_at (conn [(''q'', RList [''a'', ''b'', ''c''])]) (key \<lparr>key = ''q''\<rparr>)
     = Inr [''a'', ''b'', ''c''] \<and>
   int64 0 \<and> int64 1 \<and>
   decode_each (in_range [''a'', ''b'', ''c''] 0 1) = Inr [ascii ''a'', ascii ''b''] \<and>
   RedisList_getitem (conn [(''q'', RList [''a'', ''b'', ''c''])]) \<lparr>key = ''q''\<rparr>
       (PySlice (Some 0) (Some 1) None)
     = (Inr (PyList [PyStr (ascii ''a''), PyStr (ascii ''b'')]),
        conn [(''q'', RList [''a'', ''b'', ''c''])]) \<and>
   fst (RedisList_getitem (conn [(''q'', RList [''a'', ''b'', ''c''])]) \<lparr>key = ''q''\<rparr>
       (PySlice (Some 0) (Some 1) (Some 2))) = Inl NotImplementedError"
proof -
  have l: "list_at (conn [(''q'', RList [''a'', ''b'', ''c''])]) (key \<lparr>key = ''q''\<rparr>)
             = Inr [''a'', ''b'', ''c'']"
    by (simp add: list_at_def db_conn)
  have r: "in_range [''a'', ''b'', ''c''] 0 1 = [''a'', ''b'']"
    by (simp add: in_range_def range_of_def)
  have d: "decode_each (in_range [''a'', ''b'', ''c''] 0 1) = Inr [ascii ''a'', ascii ''b'']"
    unfolding r using decode_each_ascii [of "[''a'', ''b'']"] by simp
  have i: "int64 0" "int64 1"
    by (simp_all add: int64_def)
  show ?thesis
    using sliced_step [of "conn [(''q'', RList [''a'', ''b'', ''c''])]" "\<lparr>key = ''q''\<rparr>" 0 1 None
                          "[''a'', ''b'', ''c'']" "[ascii ''a'', ascii ''b'']"]
          sliced_step [of "conn [(''q'', RList [''a'', ''b'', ''c''])]" "\<lparr>key = ''q''\<rparr>" 0 1
                          "Some 2" "[''a'', ''b'', ''c'']" "[ascii ''a'', ascii ''b'']"]
          l d i
    by simp
qed

text \<open>
  The claim as it was stated lets the step 1 through; the code refuses it like every
  other step.
\<close>

theorem sliced_step_one:
  "fst (RedisList_getitem (conn [(''q'', RList [''a'', ''b'', ''c''])]) \<lparr>key = ''q''\<rparr>
          (PySlice (Some 0) (Some 1) (Some 1))) = Inl NotImplementedError \<and>
   fst (RedisList_getitem (conn [(''q'', RList [''a'', ''b'', ''c''])]) \<lparr>key = ''q''\<rparr>
          (PySlice (Some 0) (Some 1) (Some 1)))
     \<noteq> Inr (PyList [PyStr (ascii ''a''), PyStr (ascii ''b'')])"
  by (simp add: RedisList_getitem_def RedisList_sliced_def)

text \<open>On a key that is absent, item access raises \<open>IndexError\<close> for every integer.\<close>

lemma getitem_absent:
  "db c (key self) = None \<Longrightarrow> RedisList_getitem c self (PyInt i) = (Inl IndexError, c)"
  by (simp add: RedisList_getitem_def lindex_def and_then_def)

text \<open>
  C7. The claim: \<^verbatim>\<open>get(index)\<close> raises \<open>IndexError\<close> if and only if there is no
  element at the index. On the list whose only element is the empty string, the store
  answers position 0 with that element, and the method raises \<open>IndexError\<close>: its test
  for a missing reply also holds for the empty byte string. (Lemma \<open>getitem_at\<close> gives
  the behaviour at every position.)
\<close>

theorem getitem_empty_string:
  "lindex (conn [(''q'', RList [''''])]) ''q'' 0 = (Inr (Some ''''), conn [(''q'', RList [''''])]) \<and>
   RedisList_getitem (conn [(''q'', RList [''''])]) \<lparr>key = ''q''\<rparr> (PyInt 0)
     = (Inl IndexError, conn [(''q'', RList [''''])])"
  by (simp add: RedisList_getitem_def and_then_def lindex_def db_conn int64_def Let_def)

subsection \<open>In-place operators of a list\<close>

lemma iadd_not_iterable:
  "\<not> isinstance v T_Iterable \<Longrightarrow> RedisList_iadd c self v = (Inl TypeError, c)"
  by (cases v) (simp_all add: RedisList_iadd_def raise_if_of_type_def py_format_def and_then_def)

text \<open>
  Whatever the client does with a list value, \<^verbatim>\<open>self += [..]\<close> adds at most one
  element to the stored list.
\<close>

lemma iadd_pushes_one:
  assumes "list_at c (key self) = Inr xs"
  shows "list_at (snd (RedisList_iadd c self (PyList ys))) (key self) = Inr xs \<or>
         (\<exists>b. list_at (snd (RedisList_iadd c self (PyList ys))) (key self) = Inr (xs @ [b]))"
  using assms
  by (auto simp: RedisList_iadd_def raise_if_of_type_def and_then_def RedisList_append_def
      rpush_def list_at_store_list split: sum.splits)

text \<open>
  C5. The claim: \<^verbatim>\<open>self += xs\<close> appends the elements of \<open>xs\<close> one by one, so that
  the contents become \<open>L @ xs\<close>. The method hands the whole list to \<^verbatim>\<open>append\<close> as
  one value: on \<open>[a]\<close> and \<open>xs = [b, c]\<close> the contents never become \<open>[a, b, c]\<close>,
  whether the client refuses the list value or transmits a rendering of it.
\<close>

theorem iadd_one_value:
  "\<forall>enc. list_at (snd (RedisList_iadd \<lparr>db = [''q'' \<mapsto> RList [''a'']], encode_other = enc\<rparr>
                        \<lparr>key = ''q''\<rparr> (PyList [PyStr (ascii ''b''), PyStr (ascii ''c'')]))) ''q''
          \<noteq> Inr [''a'', ''b'', ''c'']"
  by (auto simp: RedisList_iadd_def raise_if_of_type_def and_then_def RedisList_append_def
      rpush_def encode_def list_at_def store_list_def split: sum.splits)

text \<open>
  C10. In-place concatenation and in-place repetition return \<^verbatim>\<open>None\<close>, not the view:
  whenever either of them returns, the value is \<^verbatim>\<open>None\<close>. They do return: repetition
  for every factor up to 1, concatenation of a list whenever the client transmits the
  list value.
\<close>

theorem inplace_return:
  "((\<exists>e. fst (RedisList_iadd c self v) = Inl e) \<or> fst (RedisList_iadd c self v) = Inr PyNone) \<and>
   ((\<exists>e. fst (RedisList_imul c self v) = Inl e) \<or> fst (RedisList_imul c self v) = Inr PyNone) \<and>
   (n \<le> 1 \<longrightarrow> fst (RedisList_imul c self (PyInt n)) = Inr PyNone) \<and>
   (list_at c (key self) = Inr xs \<longrightarrow> encode c (PyList ys) = Inr b \<longrightarrow>
      fst (RedisList_iadd c self (PyList ys)) = Inr PyNone)"
proof (intro conjI impI)
  show "(\<exists>e. fst (RedisList_iadd c self v) = Inl e) \<or> fst (RedisList_iadd c self v) = Inr PyNone"
    by (auto simp: RedisList_iadd_def and_then_def RedisList_append_def
        split: sum.splits prod.splits if_splits)
  show "(\<exists>e. fst (RedisList_imul c self v) = Inl e) \<or> fst (RedisList_imul c self v) = Inr PyNone"
    by (auto simp: RedisList_imul_def and_then_def
        split: sum.splits prod.splits if_splits pyval.splits)
  show "fst (RedisList_imul c self (PyInt n)) = Inr PyNone" if "n \<le> 1"
    using that
    by (simp add: RedisList_imul_def raise_if_of_type_def and_then_def RedisList_clear_def
        delete_def)
  show "fst (RedisList_iadd c self (PyList ys)) = Inr PyNone"
    if "list_at c (key self) = Inr xs" and "encode c (PyList ys) = Inr b"
    using that
    by (simp add: RedisList_iadd_def raise_if_of_type_def and_then_def RedisList_append_def
        rpush_def)
qed

text \<open>
  The theorem on the list \<open>[a]\<close>: repetition by 0, and concatenation through a client
  that transmits a rendering of the list value.
\<close>

theorem inplace_return_witness:
  "(0::int) \<le> 1 \<and>
   fst (RedisList_imul (conn [(''q'', RList [''a''])]) \<lparr>key = ''q''\<rparr> (PyInt 0)) = Inr PyNone \<and>
   list_at \<lparr>db = [''q'' \<mapsto> RList [''a'']], encode_other = (\<lambda>_. Inr ''[]'')\<rparr> (key \<lparr>key = ''q''\<rparr>)
     = Inr [''a''] \<and>
   encode \<lparr>db = [''q'' \<mapsto> RList [''a'']], encode_other = (\<lambda>_. Inr ''[]'')\<rparr> (PyList []) = Inr ''[]'' \<and>
   fst (RedisList_iadd \<lparr>db = [''q'' \<mapsto> RList [''a'']], encode_other = (\<lambda>_. Inr ''[]'')\<rparr>
          \<lparr>key = ''q''\<rparr> (PyList [])) = Inr PyNone"
proof -
  let ?c = "\<lparr>db = [''q'' \<mapsto> RList [''a'']], encode_other = (\<lambda>_. Inr ''[]'')\<rparr>"
  have l: "list_at ?c (key \<lparr>key = ''q''\<rparr>) = Inr [''a'']"
    by (simp add: list_at_def)
  have e: "encode ?c (PyList []) = Inr ''[]''"
    by (simp add: encode_def)
  show ?thesis
    using inplace_return [of "conn [(''q'', RList [''a''])]" "\<lparr>key = ''q''\<rparr>" PyNone 0 "[]" "[]" "[]"]
          inplace_return [of ?c "\<lparr>key = ''q''\<rparr>" PyNone 0 "[''a'']" "[]" "''[]''"] l e
    by simp
qed

text \<open>A repetition that does repeat: \<^verbatim>\<open>self *= 2\<close> on \<open>[a]\<close> returns \<^verbatim>\<open>None\<close> and leaves \<open>[a, a]\<close>.\<close>

lemma imul_twice:
  "fst (RedisList_imul (conn [(''q'', RList [''a''])]) \<lparr>key = ''q''\<rparr> (PyInt 2)) = Inr PyNone \<and>
   list_at (snd (RedisList_imul (conn [(''q'', RList [''a''])]) \<lparr>key = ''q''\<rparr> (PyInt 2))) ''q''
     = Inr [''a'', ''a'']"
proof -
  let ?c = "conn [(''q'', RList [''a''])]"
  have l: "list_at ?c ''q'' = Inr [''a'']"
    by (simp add: list_at_def db_conn)
  have d: "decode_each [''a''] = Inr [ascii ''a'']"
    using decode_each_ascii [of "[''a'']"] by simp
  have p: "py_list ?c (PyRedisList ''q'') = (Inr [PyStr (ascii ''a'')], ?c)"
    using py_list_RedisList [OF l] by (simp add: DECODER_ascii)
  have e: "encode ?c (PyStr (ascii ''a'')) = Inr ''a''"
    by (simp add: encode_def encode_text_ascii)
  have x: "RedisList_extend ?c \<lparr>key = ''q''\<rparr> (PyRedisList ''q'')
             = (Inr PyNone, store_list ?c ''q'' [''a'', ''a''])"
    by (simp add: RedisList_extend_def p and_then_def rpush_def e l)
  have n: "nat (2 - 1) = Suc 0"
    by simp
  show ?thesis
    by (simp add: RedisList_imul_def raise_if_of_type_def and_then_def x list_at_store_list
        del: One_nat_def)
qed

subsection \<open>Elements and comparison of a set\<close>

text \<open>
  C8. For every set and every element that is not in it, \<^verbatim>\<open>discard\<close> returns
  without an error and leaves the set as it is, also when called a second time, and
  \<^verbatim>\<open>remove\<close> raises \<open>KeyError\<close> at each call. The element is one that the client
  transmits, \<open>b\<close> being what the store receives for it.
\<close>

theorem discard_remove_absent:
  assumes "set_at c (key self) = Inr ms" and "encode c e = Inr b" and "b \<notin> set ms"
  shows "RedisSet_discard c self e = (Inr PyNone, c) \<and>
         and_then (RedisSet_discard c self e) (\<lambda>_ c'. RedisSet_discard c' self e) = (Inr PyNone, c) \<and>
         RedisSet_remove c self e = (Inl KeyError, c) \<and>
         RedisSet_remove (snd (RedisSet_remove c self e)) self e = (Inl KeyError, c)"
  using assms
  by (simp add: RedisSet_discard_def RedisSet_remove_def and_then_def srem_def)

text \<open>The theorem on the set \<open>{1, 2}\<close> and the element 9.\<close>

theorem discard_remove_absent_witness:
  "set_at (conn [(''s'', RSet [''1'', ''2''])]) (key \<lparr>key = ''s''\<rparr>) = Inr [''1'', ''2''] \<and>
   encode (conn [(''s'', RSet [''1'', ''2''])]) (PyStr (ascii ''9'')) = Inr ''9'' \<and>
   ''9'' \<notin> set [''1'', ''2''] \<and>
   RedisSet_discard (conn [(''s'', RSet [''1'', ''2''])]) \<lparr>key = ''s''\<rparr> (PyStr (ascii ''9''))
     = (Inr PyNone, conn [(''s'', RSet [''1'', ''2''])]) \<and>
   RedisSet_remove (conn [(''s'', RSet [''1'', ''2''])]) \<lparr>key = ''s''\<rparr> (PyStr (ascii ''9''))
     = (Inl KeyError, conn [(''s'', RSet [''1'', ''2''])])"
proof -
  have a: "set_at (conn [(''s'', RSet [''1'', ''2''])]) (key \<lparr>key = ''s''\<rparr>) = Inr [''1'', ''2'']"
    by (simp add: set_at_def db_conn)
  have b: "encode (conn [(''s'', RSet [''1'', ''2''])]) (PyStr (ascii ''9'')) = Inr ''9''"
    by (simp add: encode_def encode_text_ascii)
  have n: "''9'' \<notin> set [''1'', ''2'']"
    by simp
  show ?thesis
    using discard_remove_absent [OF a b n] a b n by simp
qed

lemma py_set_self:
  assumes "set_at c k = Inr ms"
  shows "py_set c (PyRedisSet k) =
           (case decode_each ms of Inl e \<Rightarrow> Inl e | Inr ts \<Rightarrow> Inr (PyStr ` set ts), c)"
  using assms
  by (auto simp: py_set_def py_list_def RedisSet_iter_def smembers_def and_then_def hashable_def
      list_all_iff split: sum.splits)

text \<open>
  The equality test on a key that holds a set, for every operand: the sizes are compared
  first, and the members are decoded and compared only when the sizes agree.
\<close>

lemma RedisSet_eq_at:
  assumes "set_at c (key self) = Inr ms"
  shows "RedisSet_eq c self other =
           ((case fst (py_len c other) of
               Inl e \<Rightarrow> Inl e
             | Inr m \<Rightarrow>
                 if length ms = m
                 then (case decode_each ms of
                         Inl e \<Rightarrow> Inl e
                       | Inr ts \<Rightarrow> (case fst (py_set c other) of
                                     Inl e \<Rightarrow> Inl e
                                   | Inr t \<Rightarrow> Inr (PyStr ` set ts = t)))
                 else Inr False), c)"
proof -
  obtain x where l: "py_len c other = (x, c)"
    using py_len_conn [of c other] by (cases "py_len c other") simp
  obtain y where s: "py_set c other = (y, c)"
    using py_set_conn [of c other] by (cases "py_set c other") simp
  show ?thesis
    using assms
    by (auto simp: RedisSet_eq_def RedisSet_len_def scard_def and_then_def l s py_set_self
        split: sum.splits)
qed

text \<open>
  C9, as the code has it. For every set view, \<^verbatim>\<open>s != other\<close> raises \<open>TypeError\<close>
  when \<open>other\<close> is not a view of the set class. \<^verbatim>\<open>s == other\<close> returns a boolean for
  every operand that has a length and hashable items, the members of the set being
  decodable: false when the sizes differ, and otherwise whether the decoded members are
  the items of the operand. It raises \<open>TypeError\<close> for an operand that has no length,
  such as \<^verbatim>\<open>None\<close> or an integer. So for a list operand \<open>x\<close>, \<^verbatim>\<open>s != x\<close> raises
  where \<^verbatim>\<open>not (s == x)\<close> is a boolean.
\<close>

theorem set_ne_eq:
  "(\<not> isinstance other T_RedisSet \<longrightarrow> RedisSet_ne c self other = (Inl TypeError, c)) \<and>
   (set_at c (key self) = Inr ms \<longrightarrow> fst (py_len c other) = Inr m \<longrightarrow> length ms \<noteq> m \<longrightarrow>
      RedisSet_eq c self other = (Inr False, c)) \<and>
   (set_at c (key self) = Inr ms \<longrightarrow> fst (py_len c other) = Inr (length ms) \<longrightarrow>
    decode_each ms = Inr ts \<longrightarrow> fst (py_set c other) = Inr t \<longrightarrow>
      RedisSet_eq c self other = (Inr (PyStr ` set ts = t), c)) \<and>
   (set_at c (key self) = Inr ms \<longrightarrow>
      RedisSet_eq c self PyNone = (Inl TypeError, c) \<and>
      RedisSet_eq c self (PyInt n) = (Inl TypeError, c))"
proof (intro conjI impI)
  show "RedisSet_ne c self other = (Inl TypeError, c)" if "\<not> isinstance other T_RedisSet"
    using that by (simp add: RedisSet_ne_def)
  show "RedisSet_eq c self other = (Inr False, c)"
    if "set_at c (key self) = Inr ms" "fst (py_len c other) = Inr m" "length ms \<noteq> m"
    using that by (simp add: RedisSet_eq_at)
  show "RedisSet_eq c self other = (Inr (PyStr ` set ts = t), c)"
    if "set_at c (key self) = Inr ms" "fst (py_len c other) = Inr (length ms)"
       "decode_each ms = Inr ts" "fst (py_set c other) = Inr t"
    using that by (simp add: RedisSet_eq_at)
  show "RedisSet_eq c self PyNone = (Inl TypeError, c)" if "set_at c (key self) = Inr ms"
    using that by (simp add: RedisSet_eq_at py_len_def)
  show "RedisSet_eq c self (PyInt n) = (Inl TypeError, c)" if "set_at c (key self) = Inr ms"
    using that by (simp add: RedisSet_eq_at py_len_def)
qed

text \<open>The theorem on the set \<open>{1}\<close> and the list operands \<open>[1]\<close> and \<open>[]\<close>.\<close>

theorem set_ne_eq_witness:
  "\<not> isinstance (PyList [PyStr (ascii ''1'')]) T_RedisSet \<and>
   set_at (conn [(''s'', RSet [''1''])]) (key \<lparr>key = ''s''\<rparr>) = Inr [''1''] \<and>
   fst (py_len (conn [(''s'', RSet [''1''])]) (PyList [])) = Inr 0 \<and>
   length [''1''] \<noteq> (0::nat) \<and>
   fst (py_len (conn [(''s'', RSet [''1''])]) (PyList [PyStr (ascii ''1'')])) = Inr (length [''1'']) \<and>
   decode_each [''1''] = Inr [ascii ''1''] \<and>
   fst (py_set (conn [(''s'', RSet [''1''])]) (PyList [PyStr (ascii ''1'')]))
     = Inr {PyStr (ascii ''1'')} \<and>
   RedisSet_ne (conn [(''s'', RSet [''1''])]) \<lparr>key = ''s''\<rparr> (PyList [PyStr (ascii ''1'')])
     = (Inl TypeError, conn [(''s'', RSet [''1''])]) \<and>
   RedisSet_eq (conn [(''s'', RSet [''1''])]) \<lparr>key = ''s''\<rparr> (PyList [])
     = (Inr False, conn [(''s'', RSet [''1''])]) \<and>
   RedisSet_eq (conn [(''s'', RSet [''1''])]) \<lparr>key = ''s''\<rparr> (PyList [PyStr (ascii ''1'')])
     = (Inr True, conn [(''s'', RSet [''1''])]) \<and>
   RedisSet_eq (conn [(''s'', RSet [''1''])]) \<lparr>key = ''s''\<rparr> PyNone
     = (Inl TypeError, conn [(''s'', RSet [''1''])])"
proof -
  let ?c = "conn [(''s'', RSet [''1''])]"
  have a: "set_at ?c (key \<lparr>key = ''s''\<rparr>) = Inr [''1'']"
    by (simp add: set_at_def db_conn)
  have t: "\<not> isinstance (PyList [PyStr (ascii ''1'')]) T_RedisSet"
    by simp
  have l0: "fst (py_len ?c (PyList [])) = Inr 0"
    by (simp add: py_len_def)
  have l1: "fst (py_len ?c (PyList [PyStr (ascii ''1'')])) = Inr (length [''1''])"
    by (simp add: py_len_def)
  have d: "decode_each [''1''] = Inr [ascii ''1'']"
    using decode_each_ascii [of "[''1'']"] by simp
  have s: "fst (py_set ?c (PyList [PyStr (ascii ''1'')])) = Inr {PyStr (ascii ''1'')}"
    by (simp add: py_set_def py_list_def and_then_def hashable_def)
  have n: "length [''1''] \<noteq> (0::nat)"
    by simp
  show ?thesis
    using set_ne_eq [of "PyList [PyStr (ascii ''1'')]" ?c "\<lparr>key = ''s''\<rparr>" "[''1'']"
                        "length [''1'']" "[ascii ''1'']" "{PyStr (ascii ''1'')}" 0]
          set_ne_eq [of "PyList []" ?c "\<lparr>key = ''s''\<rparr>" "[''1'']" 0 "[]" "{}" 0]
          a t l0 l1 d s n
    by simp
qed

text \<open>
  The claim as it was stated has the equality test accept any operand; an integer
  operand makes it raise.
\<close>

theorem eq_int_operand:
  "fst (RedisSet_eq (conn [(''s'', RSet [''1''])]) \<lparr>key = ''s''\<rparr> (PyInt 5)) = Inl TypeError"
  by (simp add: RedisSet_eq_def RedisSet_len_def scard_def set_at_def db_conn and_then_def
      py_len_def)

subsection \<open>Reading a field of a hash\<close>

text \<open>
  C6. The claim: for a field that the mapping does not have, \<^verbatim>\<open>get\<close> with a default
  returns the default, and item access raises \<open>KeyError\<close>. On the empty mapping, item
  access on the field \<open>x\<close> raises \<open>NameError\<close>, because the exception it means to raise
  is built from a variable that is not bound; \<^verbatim>\<open>get\<close> catches \<open>KeyError\<close> only,
  so \<^verbatim>\<open>get("x", 7)\<close> raises the same \<open>NameError\<close> and does not return 7.
\<close>

theorem dict_get_absent:
  "RedisDict_get (conn []) \<lparr>key = ''m''\<rparr> (PyStr (ascii ''x'')) (PyInt 7)
     = (Inl NameError, conn []) \<and>
   RedisDict_getitem (conn []) \<lparr>key = ''m''\<rparr> (PyStr (ascii ''x'')) = (Inl NameError, conn [])"
  by (simp add: RedisDict_get_def RedisDict_getitem_def and_then_def hget_def hash_at_def
      encode_def encode_text_ascii db_conn read_name_def module_names_def)

end
